theory Spec2Isabelle
  imports Complex_Main "HOL-Library.Word"
begin

unbundle bit_operations_syntax

section \<open>Data model\<close>

type_synonym u8 = "8 word"

type_synonym u16 = "16 word"

text \<open>
  A read of a vector past its end is undefined in C++; the model returns it as a value.
\<close>

datatype fault = IndexOutOfBounds

text \<open>
  Modelled from the spec: the transport collaborator \<open>I2CDevice\<close> is declared outside
  \<open>src/multiPCA9685.cpp\<close>. It is bound to a bus and a device address at construction and
  offers \<open>writeRegister(registerAddress: byte, value: byte)\<close> and
  \<open>writeRegister(registerAddress: byte, data: byte[], length)\<close>. The model keeps, per
  device object, the calls it has received, oldest first.
\<close>

datatype transfer =
    WriteByte u8 u8
  | WriteBlock u8 "u8 list" nat

record I2CDevice =
  bus :: u8
  deviceAddress :: u8
  sent :: "transfer list"

definition I2CDevice_new :: "u8 \<Rightarrow> u8 \<Rightarrow> I2CDevice" where
  "I2CDevice_new b a = \<lparr>bus = b, deviceAddress = a, sent = []\<rparr>"

definition writeRegister :: "I2CDevice \<Rightarrow> u8 \<Rightarrow> u8 \<Rightarrow> I2CDevice" where
  "writeRegister dev reg val = dev\<lparr>sent := sent dev @ [WriteByte reg val]\<rparr>"

definition writeRegisterBlock :: "I2CDevice \<Rightarrow> u8 \<Rightarrow> u8 list \<Rightarrow> nat \<Rightarrow> I2CDevice" where
  "writeRegisterBlock dev reg data len = dev\<lparr>sent := sent dev @ [WriteBlock reg data len]\<rparr>"

text \<open>
  What the program is built against. The register addresses \<open>MODE1\<close>, \<open>PRE_SCALE\<close> and
  \<open>SERVO0\<close> are macros of the header \<open>multiPCA9685.h\<close>, which is not part of \<open>src/\<close>,
  and the spec gives them no value: they are parameters of the model, one byte each. So
  is \<open>inf_byte\<close>, the byte that \<open>static_cast<uint8_t>\<close> yields for an infinite \<open>double\<close>:
  C++ does not define it and the platforms differ.
\<close>

record target =
  MODE1 :: u8
  PRE_SCALE :: u8
  SERVO0 :: u8
  inf_byte :: u8

text \<open>
  Modelled from the spec: the macro \<open>MULTIPLIER\<close> of the header, the per-channel register
  stride of 4 bytes (ON_L, ON_H, OFF_L, OFF_H).
\<close>

definition MULTIPLIER :: int where
  "MULTIPLIER = 4"

text \<open>
  Modelled from the spec: the macro \<open>CLOCK_FREQ\<close> of the header, the chip's fixed internal
  clock rate of 25,000,000 Hz. It is a floating-point constant: the quotient of
  \<open>setFreq\<close> is not truncated before the bias 0.5 is added. The model computes with exact
  real numbers where the code computes with doubles.
\<close>

definition CLOCK_FREQ :: real where
  "CLOCK_FREQ = 25000000"

text \<open>
  Modelled from the spec: \<open>outputsPerDriver\<close>, declared in the header, the chip's channel
  count of 16.
\<close>

definition outputsPerDriver :: int where
  "outputsPerDriver = 16"

record PCA9685 =
  i2c :: I2CDevice

section \<open>The single driver\<close>

definition reset :: "target \<Rightarrow> PCA9685 \<Rightarrow> PCA9685" where
  "reset h d = d\<lparr>i2c := writeRegister (i2c d) (MODE1 h) 0x20\<rparr>"

text \<open>
  \<open>static_cast<uint8_t>\<close> of a finite floating-point value truncates towards zero. C++
  defines the result when the truncated value is one of 0..255; beyond that the compiled
  code converts to a wider integer and keeps its low byte, and so does the model. No
  check is made and no call is cut short.
\<close>

definition truncate_toward_zero :: "real \<Rightarrow> int" where
  "truncate_toward_zero x = (if 0 \<le> x then \<lfloor>x\<rfloor> else \<lceil>x\<rceil>)"

definition cast_u8 :: "real \<Rightarrow> u8" where
  "cast_u8 x = word_of_int (truncate_toward_zero x)"

text \<open>
  The divisor \<open>4096 * freq\<close> of line 40: \<open>freq\<close> is promoted to \<open>int\<close>, and the product is
  at most 4096 * 255.
\<close>

definition divisor :: "u8 \<Rightarrow> int" where
  "divisor freq = 4096 * uint freq"

text \<open>
  Line 40, with the clock as an argument:
  \<open>static_cast<uint8_t>((CLOCK_FREQ / (4096 * freq)) - 1 + 0.5)\<close>. The division is a
  division of doubles: by the divisor 0 it gives an infinity, which the subtraction and
  the addition keep and the conversion turns into \<open>inf_byte\<close>. The code has no test of
  the divisor; the case distinction below is the arithmetic of doubles, written out.
\<close>

definition prescale_val :: "target \<Rightarrow> real \<Rightarrow> u8 \<Rightarrow> u8" where
  "prescale_val h clock freq =
     (if divisor freq = 0 then inf_byte h
      else cast_u8 (clock / of_int (divisor freq) - 1 + 1 / 2))"

definition setFreq :: "target \<Rightarrow> PCA9685 \<Rightarrow> u8 \<Rightarrow> PCA9685" where
  "setFreq h d freq =
     (let prescale = prescale_val h CLOCK_FREQ freq;
          d1 = d\<lparr>i2c := writeRegister (i2c d) (MODE1 h) 0x10\<rparr>;
          d2 = d1\<lparr>i2c := writeRegister (i2c d1) (PRE_SCALE h) prescale\<rparr>;
          d3 = d2\<lparr>i2c := writeRegister (i2c d2) (MODE1 h) 0xA0\<rparr>
      in d3)"

definition PCA9685_new :: "target \<Rightarrow> u8 \<Rightarrow> u8 \<Rightarrow> u8 \<Rightarrow> PCA9685" where
  "PCA9685_new h b a freq = setFreq h (reset h \<lparr>i2c = I2CDevice_new b a\<rparr>) freq"

text \<open>
  The three-argument \<open>PCA9685::setPWM\<close>. The operands of \<open>&\<close> and \<open>>>\<close> are promoted to
  \<open>int\<close>; the register argument \<open>SERVO0 + MULTIPLIER * servo\<close> is an \<open>int\<close>, converted to
  the byte the transport takes.
\<close>

definition encode :: "u16 \<Rightarrow> u16 \<Rightarrow> u8 list" where
  "encode on_value off_value =
     [word_of_int (uint on_value AND 0xFF),
      word_of_int (drop_bit 8 (uint on_value)),
      word_of_int (uint off_value AND 0xFF),
      word_of_int (drop_bit 8 (uint off_value))]"

definition PCA9685_setPWM :: "target \<Rightarrow> PCA9685 \<Rightarrow> u8 \<Rightarrow> u16 \<Rightarrow> u16 \<Rightarrow> PCA9685" where
  "PCA9685_setPWM h d servo on_value off_value =
     d\<lparr>i2c := writeRegisterBlock (i2c d)
                (word_of_int (uint (SERVO0 h) + MULTIPLIER * uint servo))
                (encode on_value off_value) 4\<rparr>"

definition PCA9685_setPWM2 :: "target \<Rightarrow> PCA9685 \<Rightarrow> u8 \<Rightarrow> u16 \<Rightarrow> PCA9685" where
  "PCA9685_setPWM2 h d servo val = PCA9685_setPWM h d servo 0 val"

section \<open>The aggregator\<close>

text \<open>
  What the program prints, one value per statement that writes to \<open>std::cout\<close>, with the
  numbers it prints as fields; the text around them is not modelled.
\<close>

datatype printed =
    SettingPWM u16 u16 int int int int int
  | ConfigurationHeader int int
  | DriverLine nat int int
  | ConfigurationEnd
  | DebugOn
  | DebugOff

text \<open>
  The members of \<open>MultiPCA9685\<close> are declared in the header. \<open>numDrivers\<close> is printed
  through \<open>static_cast<int>\<close> as the 8-bit \<open>DevFrequency\<close> is, and is modelled as a byte:
  the constructor converts the size of the vector to it. The debug flag \<open>PCA9685_DEBUG\<close>
  and the output stream are state of the process; they are fields of the same record, so
  that every method maps a state to a state.
\<close>

record MultiPCA9685 =
  busAddressPairs :: "(int \<times> u8) list"
  pwmDrivers :: "PCA9685 list"
  numDrivers :: u8
  DevFrequency :: u8
  PCA9685_DEBUG :: bool
  cout :: "printed list"

text \<open>
  The loop of the constructor: \<open>emplace_back(bus, address, frequency)\<close> converts the
  \<open>int\<close> bus to the \<open>uint8_t\<close> the driver's constructor takes.
\<close>

fun emplace_all :: "target \<Rightarrow> (int \<times> u8) list \<Rightarrow> u8 \<Rightarrow> PCA9685 list \<Rightarrow> PCA9685 list" where
  "emplace_all h [] frequency acc = acc"
| "emplace_all h (bus_address # rest) frequency acc =
     emplace_all h rest frequency
       (acc @ [PCA9685_new h (word_of_int (fst bus_address)) (snd bus_address) frequency])"

text \<open>
  The constructor, given the debug flag and the output of the process as they are when
  it runs.
\<close>

definition MultiPCA9685_new ::
  "target \<Rightarrow> bool \<Rightarrow> printed list \<Rightarrow> (int \<times> u8) list \<Rightarrow> u8 \<Rightarrow> MultiPCA9685" where
  "MultiPCA9685_new h dbg out bus_address_pairs frequency =
     \<lparr>busAddressPairs = bus_address_pairs,
      pwmDrivers = emplace_all h bus_address_pairs frequency [],
      numDrivers = of_nat (length bus_address_pairs),
      DevFrequency = frequency,
      PCA9685_DEBUG = dbg,
      cout = out\<rparr>"

text \<open>Lines 109 and 110: the quotient and the remainder, converted to \<open>uint8_t\<close>.\<close>

definition driverIndex :: "u8 \<Rightarrow> u8" where
  "driverIndex motorIndex = word_of_int (uint motorIndex div outputsPerDriver)"

definition channel :: "u8 \<Rightarrow> u8" where
  "channel motorIndex = word_of_int (uint motorIndex mod outputsPerDriver)"

definition MultiPCA9685_setPWM ::
  "target \<Rightarrow> MultiPCA9685 \<Rightarrow> u8 \<Rightarrow> u16 \<Rightarrow> u16 \<Rightarrow> fault + MultiPCA9685" where
  "MultiPCA9685_setPWM h s motorIndex on off =
     (let di = driverIndex motorIndex; ch = channel motorIndex
      in if uint di < uint (numDrivers s) then
           if unat di < length (pwmDrivers s) \<and> unat di < length (busAddressPairs s) then
             (let driver = pwmDrivers s ! unat di;
                  bus_address = busAddressPairs s ! unat di;
                  s1 = (if PCA9685_DEBUG s
                        then s\<lparr>cout := cout s @
                               [SettingPWM on off (uint motorIndex) (uint di) (uint ch)
                                  (uint (snd bus_address)) (fst bus_address)]\<rparr>
                        else s)
              in Inr (s1\<lparr>pwmDrivers := (pwmDrivers s1)[unat di := PCA9685_setPWM h driver ch on off]\<rparr>))
           else Inl IndexOutOfBounds
         else Inr s)"

definition MultiPCA9685_setPWM2 ::
  "target \<Rightarrow> MultiPCA9685 \<Rightarrow> u8 \<Rightarrow> u16 \<Rightarrow> fault + MultiPCA9685" where
  "MultiPCA9685_setPWM2 h s motorIndex val = MultiPCA9685_setPWM h s motorIndex 0 val"

definition getSetup :: "MultiPCA9685 \<Rightarrow> MultiPCA9685" where
  "getSetup s =
     s\<lparr>cout := cout s
         @ [ConfigurationHeader (uint (numDrivers s)) (uint (DevFrequency s))]
         @ map (\<lambda>i. DriverLine (i + 1) (fst (busAddressPairs s ! i))
                                 (uint (snd (busAddressPairs s ! i))))
               [0 ..< length (busAddressPairs s)]
         @ [ConfigurationEnd]\<rparr>"

definition toggleDebug :: "MultiPCA9685 \<Rightarrow> MultiPCA9685" where
  "toggleDebug s =
     (let s1 = s\<lparr>PCA9685_DEBUG := \<not> PCA9685_DEBUG s\<rparr>
      in if PCA9685_DEBUG s1 then s1\<lparr>cout := cout s1 @ [DebugOn]\<rparr>
         else s1\<lparr>cout := cout s1 @ [DebugOff]\<rparr>)"

text \<open>The public interface after construction, and a program as a list of calls.\<close>

datatype call =
    SetPWM u8 u16 u16
  | SetPWM2 u8 u16
  | GetSetup
  | ToggleDebug

fun perform :: "target \<Rightarrow> MultiPCA9685 \<Rightarrow> call \<Rightarrow> fault + MultiPCA9685" where
  "perform h s (SetPWM m on off) = MultiPCA9685_setPWM h s m on off"
| "perform h s (SetPWM2 m v) = MultiPCA9685_setPWM2 h s m v"
| "perform h s GetSetup = Inr (getSetup s)"
| "perform h s ToggleDebug = Inr (toggleDebug s)"

fun run :: "target \<Rightarrow> MultiPCA9685 \<Rightarrow> call list \<Rightarrow> fault + MultiPCA9685" where
  "run h s [] = Inr s"
| "run h s (c # cs) = (case perform h s c of Inl e \<Rightarrow> Inl e | Inr s' \<Rightarrow> run h s' cs)"

section \<open>Configuration and invariant\<close>

text \<open>
  The device a driver object is bound to: the bus and the address its transport was
  constructed with. A configured pair binds to its address and to its bus converted to
  \<open>uint8_t\<close>.
\<close>

definition binding :: "PCA9685 \<Rightarrow> u8 \<times> u8" where
  "binding d = (bus (i2c d), deviceAddress (i2c d))"

definition pair_binding :: "int \<times> u8 \<Rightarrow> u8 \<times> u8" where
  "pair_binding bus_address = (word_of_int (fst bus_address), snd bus_address)"

text \<open>
  What the constructor establishes and every method keeps: the stored count does not
  exceed the number of drivers, and there is one configured pair per driver. Under it
  the vector reads of \<open>MultiPCA9685::setPWM\<close> are in range.
\<close>

definition consistent :: "MultiPCA9685 \<Rightarrow> bool" where
  "consistent s \<longleftrightarrow>
     unat (numDrivers s) \<le> length (pwmDrivers s)
     \<and> length (busAddressPairs s) = length (pwmDrivers s)"

text \<open>
  Two states have the same configuration when they agree on the pairs, the count, the
  frequency and, position by position, on the device each driver is bound to. The calls
  a device has received are not part of the configuration.
\<close>

definition same_configuration :: "MultiPCA9685 \<Rightarrow> MultiPCA9685 \<Rightarrow> bool" where
  "same_configuration s s' \<longleftrightarrow>
     busAddressPairs s' = busAddressPairs s
     \<and> numDrivers s' = numDrivers s
     \<and> DevFrequency s' = DevFrequency s
     \<and> map binding (pwmDrivers s') = map binding (pwmDrivers s)"

section \<open>Concrete values for the examples\<close>

text \<open>
  The register addresses of the PCA9685 data sheet (MODE1 at 0x00, PRE_SCALE at 0xFE, the
  first channel at 0x06) with 0 for \<open>inf_byte\<close>, and a driver object whose device has
  received nothing yet. They are used only where a statement is evaluated at a concrete
  input.
\<close>

definition datasheet :: target where
  "datasheet = \<lparr>MODE1 = 0x00, PRE_SCALE = 0xFE, SERVO0 = 0x06, inf_byte = 0x00\<rparr>"

definition fresh :: "u8 \<Rightarrow> u8 \<Rightarrow> PCA9685" where
  "fresh b a = \<lparr>i2c = I2CDevice_new b a\<rparr>"

text \<open>A driver as its constructor leaves it at 50 Hz: reset, then the three writes of \<open>setFreq\<close>.\<close>

definition initialised :: "u8 \<Rightarrow> u8 \<Rightarrow> PCA9685" where
  "initialised b a =
     \<lparr>i2c = \<lparr>bus = b, deviceAddress = a,
             sent = [WriteByte 0x00 0x20, WriteByte 0x00 0x10, WriteByte 0xFE 121,
                     WriteByte 0x00 0xA0]\<rparr>\<rparr>"

text \<open>
  An aggregator of the pairs (1, 0x40) and (3, 0x41) at 50 Hz, after construction and
  after the calls of \<open>example_calls\<close>; and an aggregator of seventeen drivers on bus 1
  at the addresses 0x40 to 0x50, after construction and after \<open>setPWM(255, 0, 100)\<close>.
\<close>

definition two_boards :: MultiPCA9685 where
  "two_boards =
     \<lparr>busAddressPairs = [(1, 0x40), (3, 0x41)],
      pwmDrivers = [initialised 1 0x40, initialised 3 0x41],
      numDrivers = 2, DevFrequency = 50, PCA9685_DEBUG = False, cout = []\<rparr>"

definition example_calls :: "call list" where
  "example_calls = [SetPWM2 17 110, ToggleDebug, SetPWM2 17 550, GetSetup, SetPWM2 32 7]"

definition two_boards_later :: MultiPCA9685 where
  "two_boards_later =
     \<lparr>busAddressPairs = [(1, 0x40), (3, 0x41)],
      pwmDrivers =
        [initialised 1 0x40,
         \<lparr>i2c = \<lparr>bus = 3, deviceAddress = 0x41,
                 sent = sent (i2c (initialised 3 0x41)) @
                   [WriteBlock 0x0A [0x00, 0x00, 0x6E, 0x00] 4,
                    WriteBlock 0x0A [0x00, 0x00, 0x26, 0x02] 4]\<rparr>\<rparr>],
      numDrivers = 2, DevFrequency = 50, PCA9685_DEBUG = True,
      cout = [DebugOn, SettingPWM 0 550 17 1 1 0x41 3, ConfigurationHeader 2 50,
              DriverLine 1 1 0x40, DriverLine 2 3 0x41, ConfigurationEnd]\<rparr>"

definition seventeen_pairs :: "(int \<times> u8) list" where
  "seventeen_pairs = map (\<lambda>a. (1, of_nat a)) [64 ..< 81]"

definition seventeen_boards :: MultiPCA9685 where
  "seventeen_boards =
     \<lparr>busAddressPairs = seventeen_pairs,
      pwmDrivers = map (\<lambda>a. initialised 1 (of_nat a)) [64 ..< 81],
      numDrivers = 17, DevFrequency = 50, PCA9685_DEBUG = False, cout = []\<rparr>"

definition seventeen_later :: MultiPCA9685 where
  "seventeen_later =
     seventeen_boards\<lparr>pwmDrivers := (pwmDrivers seventeen_boards)
        [15 := PCA9685_setPWM datasheet (pwmDrivers seventeen_boards ! 15) 15 0 100]\<rparr>"

section \<open>The prescale value\<close>

lemma uint_u8_le: "uint (f :: u8) \<le> 255"
  using uint_lt2p [of f] by simp

lemma divisor_eq_0_iff: "divisor freq = 0 \<longleftrightarrow> freq = 0"
  by (simp add: divisor_def uint_0_iff)

lemma divisor_bounds: "0 \<le> divisor freq \<and> divisor freq \<le> 1044480"
  using uint_u8_le [of freq] by (simp add: divisor_def)

lemma truncate_biased:
  fixes q :: real
  assumes "1 / 2 \<le> q"
  shows "truncate_toward_zero (q - 1 + 1 / 2) = round q - 1"
proof -
  have nonneg: "0 \<le> q - 1 + 1 / 2" using assms by simp
  have "\<lfloor>q - 1 + 1 / 2\<rfloor> = \<lfloor>(q + 1 / 2) - 1\<rfloor>" by simp
  also have "\<dots> = \<lfloor>q + 1 / 2\<rfloor> - 1" by (rule floor_diff_one)
  finally show ?thesis
    using nonneg unfolding truncate_toward_zero_def round_def by (simp only: if_True)
qed

lemma prescale_val_round:
  assumes "freq \<noteq> 0"
    and "1 / 2 \<le> clock / of_int (divisor freq)"
  shows "prescale_val h clock freq = word_of_int (round (clock / of_int (divisor freq)) - 1)"
proof -
  let ?q = "clock / of_int (divisor freq)"
  have nz: "divisor freq \<noteq> 0" using assms(1) by (simp add: divisor_eq_0_iff)
  have "prescale_val h clock freq = cast_u8 (?q - 1 + 1 / 2)"
    using nz by (simp only: prescale_val_def if_False)
  also have "\<dots> = word_of_int (round ?q - 1)"
    unfolding cast_u8_def truncate_biased [OF assms(2)] ..
  finally show ?thesis .
qed

lemma uint_ge_24: "(24 :: u8) \<le> freq \<Longrightarrow> 24 \<le> uint freq"
  by (simp add: word_le_def)

lemma quotient_bounds:
  assumes "(24 :: u8) \<le> freq"
  shows "23 < CLOCK_FREQ / of_int (divisor freq) \<and> CLOCK_FREQ / of_int (divisor freq) < 255"
proof -
  have lo: "24 \<le> uint freq" using assms by (rule uint_ge_24)
  have hi: "uint freq \<le> 255" by (rule uint_u8_le)
  have "0 < divisor freq" using lo by (simp add: divisor_def)
  then have pos: "(0::real) < of_int (divisor freq)" by (simp only: of_int_0_less_iff)
  have "23 * (of_int (divisor freq) :: real) < CLOCK_FREQ"
  proof -
    have "23 * divisor freq < 25000000" using hi by (simp add: divisor_def)
    then have "(of_int (23 * divisor freq) :: real) < of_int 25000000" by (simp only: of_int_less_iff)
    then show ?thesis by (simp add: CLOCK_FREQ_def)
  qed
  moreover have "CLOCK_FREQ < 255 * (of_int (divisor freq) :: real)"
  proof -
    have "25000000 < 255 * divisor freq" using lo by (simp add: divisor_def)
    then have "(of_int 25000000 :: real) < of_int (255 * divisor freq)" by (simp only: of_int_less_iff)
    then show ?thesis by (simp add: CLOCK_FREQ_def)
  qed
  ultimately show ?thesis using pos by (simp add: pos_less_divide_eq pos_divide_less_eq)
qed

lemma round_quotient_bounds:
  assumes "(24 :: u8) \<le> freq"
  shows "23 \<le> round (CLOCK_FREQ / of_int (divisor freq)) \<and> round (CLOCK_FREQ / of_int (divisor freq)) \<le> 255"
  using quotient_bounds [OF assms] unfolding round_def by linarith

lemma prescale_val_valid:
  assumes "(24 :: u8) \<le> freq"
  shows "prescale_val h CLOCK_FREQ freq = word_of_int (round (CLOCK_FREQ / of_int (divisor freq)) - 1)"
proof (rule prescale_val_round)
  show "freq \<noteq> 0" using assms by auto
  show "1 / 2 \<le> CLOCK_FREQ / of_int (divisor freq)" using quotient_bounds [OF assms] by linarith
qed

lemma setFreq_sent:
  "setFreq h d freq = d\<lparr>i2c := (i2c d)\<lparr>sent := sent (i2c d) @
      [WriteByte (MODE1 h) 0x10, WriteByte (PRE_SCALE h) (prescale_val h CLOCK_FREQ freq),
       WriteByte (MODE1 h) 0xA0]\<rparr>\<rparr>"
  by (simp add: setFreq_def writeRegister_def Let_def)

lemma uint_word_of_int_u8:
  "0 \<le> k \<Longrightarrow> k < 256 \<Longrightarrow> uint (word_of_int k :: u8) = k"
  by (simp add: uint_word_of_int take_bit_int_eq_self)

lemma uint_prescale:
  assumes "(24 :: u8) \<le> freq"
  shows "uint (word_of_int (round (CLOCK_FREQ / of_int (divisor freq)) - 1) :: u8)
         = round (CLOCK_FREQ / of_int (divisor freq)) - 1"
proof -
  have "0 \<le> round (CLOCK_FREQ / of_int (divisor freq)) - 1
        \<and> round (CLOCK_FREQ / of_int (divisor freq)) - 1 < 256"
    using round_quotient_bounds [OF assms] by simp
  then show ?thesis by (intro uint_word_of_int_u8) simp_all
qed

lemma prescale_val_50: "prescale_val h CLOCK_FREQ 50 = 121"
  by (simp add: prescale_val_def divisor_def cast_u8_def truncate_toward_zero_def CLOCK_FREQ_def)

text \<open>
  Outside the valid range the byte is the low byte of the truncated value: 23 Hz gives
  264, written as 0x08, and 1 Hz gives 6103, written as 0xD7.
\<close>

lemma prescale_val_wrapped:
  "prescale_val h CLOCK_FREQ 23 = 0x08 \<and> prescale_val h CLOCK_FREQ 1 = 0xD7"
  by (simp add: prescale_val_def divisor_def cast_u8_def truncate_toward_zero_def CLOCK_FREQ_def)

text \<open>
  The frequencies for which the byte is \<open>round (clock / (4096 * freq)) - 1\<close> are exactly
  24..255: from 1 to 23 that value is 256 or more and does not fit the byte.
\<close>

lemma prescale_val_below_24:
  assumes "freq \<noteq> 0" and "freq < 24"
  shows "256 \<le> round (CLOCK_FREQ / of_int (divisor freq)) - 1"
proof -
  let ?q = "CLOCK_FREQ / of_int (divisor freq)"
  have nz: "divisor freq \<noteq> 0" using assms(1) by (simp add: divisor_eq_0_iff)
  have "uint freq < 24" using assms(2) by (simp add: word_less_def)
  then have "divisor freq \<le> 94208" by (simp add: divisor_def)
  moreover have "0 < divisor freq" using divisor_bounds [of freq] nz by simp
  ultimately have le: "(of_int (divisor freq) :: real) \<le> 94208" and pos: "(0 :: real) < of_int (divisor freq)"
    by (simp_all only: of_int_le_numeral_iff of_int_0_less_iff)
  then have "257 * (of_int (divisor freq) :: real) \<le> CLOCK_FREQ"
    by (simp add: CLOCK_FREQ_def)
  then have "257 \<le> ?q"
    using pos by (simp add: pos_le_divide_eq)
  then have "257 \<le> ?q + 1 / 2" by linarith
  then have "257 \<le> \<lfloor>?q + 1 / 2\<rfloor>" by (simp only: le_floor_iff of_int_numeral)
  then show ?thesis unfolding round_def by linarith
qed

lemma prescale_val_exact_iff:
  assumes "freq \<noteq> 0"
  shows "uint (prescale_val h CLOCK_FREQ freq) = round (CLOCK_FREQ / of_int (divisor freq)) - 1
         \<longleftrightarrow> 24 \<le> freq"
proof
  assume eq: "uint (prescale_val h CLOCK_FREQ freq) = round (CLOCK_FREQ / of_int (divisor freq)) - 1"
  show "24 \<le> freq"
  proof (rule ccontr)
    assume "\<not> 24 \<le> freq"
    then have "freq < 24" by simp
    with assms have "256 \<le> round (CLOCK_FREQ / of_int (divisor freq)) - 1"
      by (rule prescale_val_below_24)
    moreover have "uint (prescale_val h CLOCK_FREQ freq) \<le> 255" by (rule uint_u8_le)
    ultimately show False using eq by linarith
  qed
next
  assume valid: "24 \<le> freq"
  show "uint (prescale_val h CLOCK_FREQ freq) = round (CLOCK_FREQ / of_int (divisor freq)) - 1"
    unfolding prescale_val_valid [OF valid] by (rule uint_prescale [OF valid])
qed

text \<open>
  The biased quotient stays at least 1/16320 away from the next integer in both
  directions, so an error below that bound, as the rounding of double arithmetic is,
  does not change the truncated value: computing with real numbers gives the byte the
  doubles give.
\<close>

lemma odd_mod_even:
  fixes n m :: int
  assumes "odd n" and "even m"
  shows "odd (n mod m)"
proof -
  have "n mod m = n - m * (n div m)" by (simp add: minus_mult_div_eq_mod)
  moreover have "even (m * (n div m))" using assms(2) by simp
  ultimately show ?thesis using assms(1) by simp
qed

lemma biased_quotient_fraction:
  assumes "freq \<noteq> 0"
  shows "of_int \<lfloor>CLOCK_FREQ / of_int (divisor freq) - 1 + 1 / 2\<rfloor> + 1 / 16320
           \<le> CLOCK_FREQ / of_int (divisor freq) - 1 + 1 / 2
         \<and> CLOCK_FREQ / of_int (divisor freq) - 1 + 1 / 2
           \<le> of_int \<lfloor>CLOCK_FREQ / of_int (divisor freq) - 1 + 1 / 2\<rfloor> + 1 - 1 / 16320"
proof -
  define f where "f = uint freq"
  define n where "n = 390625 - 32 * f"
  define m where "m = 64 * f"
  define r where "r = n mod m"
  let ?x = "CLOCK_FREQ / of_int (divisor freq) - 1 + 1 / 2"
  have "uint freq \<noteq> 0" using assms by (simp add: uint_0_iff)
  moreover have "0 \<le> uint freq" by simp
  ultimately have f_pos: "1 \<le> f" unfolding f_def by linarith
  have f_le: "f \<le> 255" unfolding f_def by (rule uint_u8_le)
  have m_pos: "0 < m" and m_le: "m \<le> 16320" using f_pos f_le by (simp_all add: m_def)
  have fr: "(0 :: real) < of_int f" using f_pos by simp
  have x_eq: "?x = of_int n / of_int m"
    using fr by (simp add: CLOCK_FREQ_def divisor_def f_def [symmetric] n_def m_def field_simps)
  have "odd n" unfolding n_def by simp
  moreover have "even m" unfolding m_def by simp
  ultimately have "odd r" unfolding r_def by (rule odd_mod_even)
  then have "r \<noteq> 0" by auto
  moreover have "0 \<le> r" "r < m" using m_pos by (simp_all add: r_def)
  ultimately have r_lo: "1 \<le> r" and r_hi: "r \<le> m - 1" by simp_all
  have fl: "\<lfloor>?x\<rfloor> = n div m" unfolding x_eq by (rule floor_divide_of_int_eq)
  have "n = m * (n div m) + r" by (simp add: r_def)
  then have "(of_int n :: real) = of_int (m * (n div m) + r)" by (simp only:)
  then have "(of_int n :: real) = of_int m * of_int (n div m) + of_int r"
    by (simp only: of_int_add of_int_mult)
  have mr: "(0 :: real) < of_int m" using m_pos by simp
  have "(of_int n :: real) / of_int m = (of_int m * of_int (n div m) + of_int r) / of_int m"
    by (simp only: \<open>(of_int n :: real) = of_int m * of_int (n div m) + of_int r\<close>)
  also have "\<dots> = of_int (n div m) + of_int r / of_int m"
    using mr by (simp add: add_divide_distrib)
  finally have split: "?x = of_int (n div m) + of_int r / of_int m"
    by (simp only: x_eq)
  have "(1 :: real) / 16320 \<le> 1 / of_int m"
    using m_pos m_le by (simp add: field_simps)
  also have "\<dots> \<le> of_int r / of_int m"
    using r_lo mr by (simp add: divide_le_cancel)
  finally have lo: "(1 :: real) / 16320 \<le> of_int r / of_int m" .
  have "of_int r / (of_int m :: real) \<le> (of_int m - 1) / of_int m"
    using r_hi mr by (simp add: divide_le_cancel)
  also have "\<dots> = 1 - 1 / of_int m" using mr by (simp add: field_simps)
  also have "\<dots> \<le> 1 - 1 / 16320" using m_pos m_le by (simp add: field_simps)
  finally have hi: "of_int r / (of_int m :: real) \<le> 1 - 1 / 16320" .
  define x where "x = ?x"
  have "\<lfloor>x\<rfloor> = n div m" unfolding x_def by (rule fl)
  moreover have "x = of_int (n div m) + of_int r / of_int m" unfolding x_def by (rule split)
  ultimately have "of_int \<lfloor>x\<rfloor> + 1 / 16320 \<le> x \<and> x \<le> of_int \<lfloor>x\<rfloor> + 1 - 1 / 16320"
    using lo hi by simp
  then show ?thesis unfolding x_def .
qed

lemma prescale_val_stable:
  assumes "freq \<noteq> 0" and "\<bar>e\<bar> < 1 / 16320"
  shows "cast_u8 (CLOCK_FREQ / of_int (divisor freq) - 1 + 1 / 2 + e) = prescale_val h CLOCK_FREQ freq"
proof -
  let ?x = "CLOCK_FREQ / of_int (divisor freq) - 1 + 1 / 2"
  have nz: "divisor freq \<noteq> 0" using assms(1) by (simp add: divisor_eq_0_iff)
  from biased_quotient_fraction [OF assms(1)]
  have lo: "of_int \<lfloor>?x\<rfloor> + 1 / 16320 \<le> ?x" and hi: "?x \<le> of_int \<lfloor>?x\<rfloor> + 1 - 1 / 16320"
    by simp_all
  have "of_int \<lfloor>?x\<rfloor> \<le> ?x + e" "?x + e < of_int \<lfloor>?x\<rfloor> + 1"
    using lo hi assms(2) by linarith+
  then have fl: "\<lfloor>?x + e\<rfloor> = \<lfloor>?x\<rfloor>" by (simp add: floor_unique)
  have "divisor freq \<le> 1044480" "0 < divisor freq"
    using divisor_bounds [of freq] nz by simp_all
  then have "(of_int (divisor freq) :: real) \<le> 1044480" "(0 :: real) < of_int (divisor freq)"
    by (simp_all only: of_int_le_numeral_iff of_int_0_less_iff) 
  then have "23 * (of_int (divisor freq) :: real) < CLOCK_FREQ"
    by (simp add: CLOCK_FREQ_def)
  then have "23 < CLOCK_FREQ / of_int (divisor freq)"
    using \<open>(0 :: real) < of_int (divisor freq)\<close> by (simp add: pos_less_divide_eq)
  then have pos: "0 \<le> ?x" "0 \<le> ?x + e" using assms(2) by linarith+
  have "truncate_toward_zero (?x + e) = truncate_toward_zero ?x"
    using pos fl by (simp only: truncate_toward_zero_def if_True)
  then show ?thesis
    using nz by (simp only: prescale_val_def cast_u8_def if_False)
qed

text \<open>
  Claim C1. For every frequency of the valid range, which for the 8-bit parameter and the
  25 MHz clock is 24..255, the prescale value that \<open>setFreq\<close> computes and writes to
  PRE_SCALE is \<open>round (clock / (4096 * freq)) - 1\<close>, with no wrap-around in the byte;
  \<open>round\<close> is \<open>\<lfloor>x + 1/2\<rfloor>\<close>, rounding half up. A clock of 25,000,000 and a frequency of
  50 give 121.
\<close>

theorem setFreq_prescale:
  "(24 \<le> freq \<longrightarrow>
      uint (prescale_val h CLOCK_FREQ freq) = round (CLOCK_FREQ / (4096 * of_int (uint freq))) - 1
      \<and> setFreq h d freq = d\<lparr>i2c := (i2c d)\<lparr>sent := sent (i2c d) @
           [WriteByte (MODE1 h) 0x10, WriteByte (PRE_SCALE h) (prescale_val h CLOCK_FREQ freq),
            WriteByte (MODE1 h) 0xA0]\<rparr>\<rparr>)
   \<and> CLOCK_FREQ = 25000000
   \<and> prescale_val h 25000000 50 = 121"
proof (intro conjI impI)
  assume valid: "24 \<le> freq"
  have "uint (prescale_val h CLOCK_FREQ freq) = round (CLOCK_FREQ / of_int (divisor freq)) - 1"
    unfolding prescale_val_valid [OF valid] by (rule uint_prescale [OF valid])
  then show "uint (prescale_val h CLOCK_FREQ freq)
               = round (CLOCK_FREQ / (4096 * of_int (uint freq))) - 1"
    by (simp add: divisor_def)
next
  show "setFreq h d freq = d\<lparr>i2c := (i2c d)\<lparr>sent := sent (i2c d) @
           [WriteByte (MODE1 h) 0x10, WriteByte (PRE_SCALE h) (prescale_val h CLOCK_FREQ freq),
            WriteByte (MODE1 h) 0xA0]\<rparr>\<rparr>"
    by (rule setFreq_sent)
next
  show "CLOCK_FREQ = 25000000" by (simp add: CLOCK_FREQ_def)
next
  show "prescale_val h 25000000 50 = 121"
    by (simp add: prescale_val_def divisor_def cast_u8_def truncate_toward_zero_def)
qed

theorem setFreq_prescale_witness:
  "(24 :: u8) \<le> 50
   \<and> round (CLOCK_FREQ / (4096 * of_int (uint (50 :: u8)))) - 1 = 121
   \<and> uint (prescale_val datasheet CLOCK_FREQ 50) = 121
   \<and> setFreq datasheet (fresh 1 0x40) 50 = \<lparr>i2c = \<lparr>bus = 1, deviceAddress = 0x40,
        sent = [WriteByte 0x00 0x10, WriteByte 0xFE 121, WriteByte 0x00 0xA0]\<rparr>\<rparr>"
proof -
  have valid: "(24 :: u8) \<le> 50" by simp
  have r: "round (CLOCK_FREQ / (4096 * of_int (uint (50 :: u8)))) - 1 = 121"
    by (simp add: CLOCK_FREQ_def round_def)
  from setFreq_prescale [of 50 datasheet "fresh 1 0x40"] valid
  have p: "uint (prescale_val datasheet CLOCK_FREQ 50)
             = round (CLOCK_FREQ / (4096 * of_int (uint (50 :: u8)))) - 1"
    and s: "setFreq datasheet (fresh 1 0x40) 50 = (fresh 1 0x40)\<lparr>i2c := (i2c (fresh 1 0x40))\<lparr>sent := sent (i2c (fresh 1 0x40)) @
              [WriteByte (MODE1 datasheet) 0x10, WriteByte (PRE_SCALE datasheet) (prescale_val datasheet CLOCK_FREQ 50),
               WriteByte (MODE1 datasheet) 0xA0]\<rparr>\<rparr>"
    by blast+
  from p r have u: "uint (prescale_val datasheet CLOCK_FREQ 50) = 121" by simp
  then have "word_of_int (uint (prescale_val datasheet CLOCK_FREQ 50)) = (word_of_int 121 :: u8)"
    by (simp only:)
  then have "prescale_val datasheet CLOCK_FREQ 50 = 121" by simp
  with s have "setFreq datasheet (fresh 1 0x40) 50 = \<lparr>i2c = \<lparr>bus = 1, deviceAddress = 0x40,
        sent = [WriteByte 0x00 0x10, WriteByte 0xFE 121, WriteByte 0x00 0xA0]\<rparr>\<rparr>"
    by (simp add: datasheet_def fresh_def I2CDevice_new_def)
  with valid r u show ?thesis by blast
qed

text \<open>
  Claim C10. For a frequency of at least 1 the divisor \<open>4096 * freq\<close> of line 40 is
  positive and within the range of \<open>int\<close>, so the quotient is the division the code
  writes, by a nonzero divisor, and no division by zero occurs; the divisor is 0 exactly
  for the frequency 0, which the 8-bit parameter can express, and there the computation
  divides by zero.
\<close>

theorem divisor_nonzero:
  "(1 \<le> freq \<longrightarrow>
      divisor freq \<noteq> 0 \<and> 0 < divisor freq \<and> divisor freq \<le> 4096 * 255
      \<and> prescale_val h clock freq = cast_u8 (clock / of_int (divisor freq) - 1 + 1 / 2))
   \<and> divisor 0 = 0
   \<and> (divisor freq = 0 \<longleftrightarrow> freq = 0)"
proof (intro conjI impI)
  assume pos: "1 \<le> freq"
  then have nz: "freq \<noteq> 0" by auto
  then show d: "divisor freq \<noteq> 0" by (simp add: divisor_eq_0_iff)
  with divisor_bounds [of freq] show "0 < divisor freq" by simp
  show "divisor freq \<le> 4096 * 255" using divisor_bounds [of freq] by simp
  show "prescale_val h clock freq = cast_u8 (clock / of_int (divisor freq) - 1 + 1 / 2)"
    using d by (simp only: prescale_val_def if_False)
next
  show "divisor 0 = 0" by (simp add: divisor_def)
  show "divisor freq = 0 \<longleftrightarrow> freq = 0" by (rule divisor_eq_0_iff)
qed

theorem divisor_nonzero_witness:
  "(1 :: u8) \<le> 50 \<and> divisor 50 = 204800 \<and> 0 < divisor 50
   \<and> prescale_val datasheet CLOCK_FREQ 50 = cast_u8 (CLOCK_FREQ / of_int (divisor 50) - 1 + 1 / 2)
   \<and> cast_u8 (CLOCK_FREQ / of_int (divisor 50) - 1 + 1 / 2) = 121"
proof -
  have pos: "(1 :: u8) \<le> 50" by simp
  have c: "cast_u8 (CLOCK_FREQ / of_int (divisor 50) - 1 + 1 / 2) = 121"
    by (simp add: divisor_def cast_u8_def truncate_toward_zero_def CLOCK_FREQ_def)
  have v: "divisor 50 = 204800" by (simp add: divisor_def)
  from divisor_nonzero [of 50 datasheet CLOCK_FREQ] pos
  have "0 < divisor 50"
    and "prescale_val datasheet CLOCK_FREQ 50 = cast_u8 (CLOCK_FREQ / of_int (divisor 50) - 1 + 1 / 2)"
    by blast+
  with pos c v show ?thesis by blast
qed

text \<open>
  Claim C6. Every call of \<open>setFreq\<close>, whatever the frequency and the state of the
  device, sends exactly three register writes, in this order: 0x10 to MODE1, the
  computed prescale value to PRE_SCALE, 0xA0 to MODE1. So the PRE_SCALE write of a call
  lies between its sleep write and its restore write, and the call changes nothing else
  of the driver.
\<close>

theorem setFreq_three_writes:
  "sent (i2c (setFreq h d freq)) =
     sent (i2c d) @
       [WriteByte (MODE1 h) 0x10, WriteByte (PRE_SCALE h) (prescale_val h CLOCK_FREQ freq),
        WriteByte (MODE1 h) 0xA0]
   \<and> bus (i2c (setFreq h d freq)) = bus (i2c d)
   \<and> deviceAddress (i2c (setFreq h d freq)) = deviceAddress (i2c d)
   \<and> sent (i2c (setFreq h d 50)) =
       sent (i2c d) @ [WriteByte (MODE1 h) 0x10, WriteByte (PRE_SCALE h) 121, WriteByte (MODE1 h) 0xA0]
   \<and> sent (i2c (setFreq h d 0)) =
       sent (i2c d) @
         [WriteByte (MODE1 h) 0x10, WriteByte (PRE_SCALE h) (inf_byte h), WriteByte (MODE1 h) 0xA0]"
proof (intro conjI)
  show "sent (i2c (setFreq h d freq)) =
     sent (i2c d) @
       [WriteByte (MODE1 h) 0x10, WriteByte (PRE_SCALE h) (prescale_val h CLOCK_FREQ freq),
        WriteByte (MODE1 h) 0xA0]"
    by (simp add: setFreq_sent)
  show "bus (i2c (setFreq h d freq)) = bus (i2c d)" by (simp add: setFreq_sent)
  show "deviceAddress (i2c (setFreq h d freq)) = deviceAddress (i2c d)" by (simp add: setFreq_sent)
  show "sent (i2c (setFreq h d 50)) =
       sent (i2c d) @ [WriteByte (MODE1 h) 0x10, WriteByte (PRE_SCALE h) 121, WriteByte (MODE1 h) 0xA0]"
    by (simp add: setFreq_sent prescale_val_50)
  show "sent (i2c (setFreq h d 0)) =
       sent (i2c d) @
         [WriteByte (MODE1 h) 0x10, WriteByte (PRE_SCALE h) (inf_byte h), WriteByte (MODE1 h) 0xA0]"
    by (simp add: setFreq_sent prescale_val_def divisor_def)
qed

section \<open>The byte encoding of \<open>PCA9685::setPWM\<close>\<close>

lemma and_255_int: "(k :: int) AND 0xFF = k mod 256"
proof -
  have "k AND mask 8 = k mod 2 ^ 8" by (simp only: take_bit_eq_mask [symmetric] take_bit_eq_mod)
  then show ?thesis by (simp add: mask_eq_exp_minus_1)
qed

lemma low_byte: "(word_of_int (uint (w :: u16) AND 0xFF) :: u8) = word_of_nat (unat w mod 256)"
proof -
  have "uint w AND 0xFF = uint w mod 256" by (rule and_255_int)
  also have "\<dots> = int (unat w) mod int 256" by (simp only: uint_nat) simp
  also have "\<dots> = int (unat w mod 256)" by (simp only: zmod_int)
  finally show ?thesis by (simp only: of_int_of_nat_eq)
qed

lemma high_byte: "(word_of_int (drop_bit 8 (uint (w :: u16))) :: u8) = word_of_nat (unat w div 256)"
proof -
  have "drop_bit 8 (uint w) = uint w div 2 ^ 8" by (rule drop_bit_eq_div)
  also have "\<dots> = int (unat w) div int 256" by (simp only: uint_nat) simp
  also have "\<dots> = int (unat w div 256)" by (simp only: zdiv_int)
  finally show ?thesis by (simp only: of_int_of_nat_eq)
qed

lemma encode_bytes:
  "encode on_value off_value =
     [word_of_nat (unat on_value mod 256), word_of_nat (unat on_value div 256),
      word_of_nat (unat off_value mod 256), word_of_nat (unat off_value div 256)]"
  unfolding encode_def by (simp only: low_byte high_byte)

lemma unat_u16_lt: "unat (w :: u16) < 65536"
  using unsigned_less [of w, where ?'a = nat] by simp

lemma word_of_nat_u8_inj:
  "(word_of_nat a :: u8) = word_of_nat b \<Longrightarrow> a < 256 \<Longrightarrow> b < 256 \<Longrightarrow> a = b"
  by (simp add: word_of_nat_eq_iff take_bit_nat_eq_self)

lemma bytes_determine_word:
  assumes "(word_of_nat (unat (v :: u16) mod 256) :: u8) = word_of_nat (unat (w :: u16) mod 256)"
    and "(word_of_nat (unat v div 256) :: u8) = word_of_nat (unat w div 256)"
  shows "v = w"
proof -
  have "unat v div 256 < 256" "unat w div 256 < 256"
    using unat_u16_lt [of v] unat_u16_lt [of w] by simp_all
  with assms(2) have hi: "unat v div 256 = unat w div 256" by (rule word_of_nat_u8_inj)
  have "unat v mod 256 < 256" "unat w mod 256 < 256" by simp_all
  with assms(1) have lo: "unat v mod 256 = unat w mod 256" by (rule word_of_nat_u8_inj)
  have "unat v = 256 * (unat v div 256) + unat v mod 256" by simp
  also have "\<dots> = 256 * (unat w div 256) + unat w mod 256" by (simp only: hi lo)
  also have "\<dots> = unat w" by simp
  finally show ?thesis by (simp only: word_unat_eq_iff)
qed

lemma encode_inj: "encode a b = encode c d \<longleftrightarrow> a = c \<and> b = d"
proof
  assume "encode a b = encode c d"
  then show "a = c \<and> b = d"
    unfolding encode_bytes by (simp add: bytes_determine_word)
next
  assume "a = c \<and> b = d" then show "encode a b = encode c d" by simp
qed

lemma mod_4096_fixed: "((w :: u16) mod 4096 = w) \<longleftrightarrow> w < 4096"
proof
  assume "w mod 4096 = w"
  then have "unat (w mod 4096) = unat w" by simp
  then have "unat w mod 4096 = unat w" by (simp add: unat_mod)
  moreover have "unat w mod 4096 < 4096" by simp
  ultimately have "unat w < 4096" by simp
  then show "w < 4096" by (simp add: word_less_nat_alt)
next
  assume "w < 4096" then show "w mod 4096 = w" by (rule mod_word_less)
qed

lemma register_address:
  "(word_of_int (uint (SERVO0 h) + MULTIPLIER * uint servo) :: u8) = SERVO0 h + 4 * servo"
  by (simp add: MULTIPLIER_def)

lemma register_no_wrap:
  assumes "uint (base :: u8) + 4 * uint (servo :: u8) < 256"
  shows "uint (base + 4 * servo) = uint base + 4 * uint servo"
proof -
  have "base + 4 * servo = word_of_int (uint base + 4 * uint servo)" by simp
  moreover have "0 \<le> uint base + 4 * uint servo" by simp
  ultimately show ?thesis using assms by (simp only: uint_word_of_int_u8)
qed

lemma PCA9685_setPWM_sent:
  "PCA9685_setPWM h d servo on_value off_value =
     d\<lparr>i2c := (i2c d)\<lparr>sent := sent (i2c d) @
        [WriteBlock (SERVO0 h + 4 * servo) (encode on_value off_value) 4]\<rparr>\<rparr>"
  unfolding PCA9685_setPWM_def writeRegisterBlock_def register_address ..

lemma PCA9685_setPWM_eq_iff:
  "PCA9685_setPWM h d ch a b = PCA9685_setPWM h d ch a' b' \<longleftrightarrow> a = a' \<and> b = b'"
proof
  assume "PCA9685_setPWM h d ch a b = PCA9685_setPWM h d ch a' b'"
  then have "sent (i2c (PCA9685_setPWM h d ch a b)) = sent (i2c (PCA9685_setPWM h d ch a' b'))"
    by simp
  then have "encode a b = encode a' b'" by (simp add: PCA9685_setPWM_sent)
  then show "a = a' \<and> b = b'" by (simp only: encode_inj)
next
  assume "a = a' \<and> b = b'"
  then show "PCA9685_setPWM h d ch a b = PCA9685_setPWM h d ch a' b'" by simp
qed

text \<open>
  Claim C5. For every channel and every on/off pair, the 12-bit ones included,
  \<open>PCA9685::setPWM\<close> makes exactly one call of the transport: a block write of the 4
  bytes on low, on high, off low, off high, of length 4, at the register
  \<open>SERVO0 + 4 * ch\<close>. The register is a byte; it is the integer \<open>SERVO0 + 4 * ch\<close>
  whenever that is below 256. The values on = 0x0155 and off = 0x0FAB give the bytes
  0x55, 0x01, 0xAB, 0x0F.
\<close>

theorem PCA9685_setPWM_one_block:
  "sent (i2c (PCA9685_setPWM h d ch on_value off_value)) =
     sent (i2c d) @
       [WriteBlock (SERVO0 h + 4 * ch)
          [word_of_nat (unat on_value mod 256), word_of_nat (unat on_value div 256),
           word_of_nat (unat off_value mod 256), word_of_nat (unat off_value div 256)] 4]
   \<and> bus (i2c (PCA9685_setPWM h d ch on_value off_value)) = bus (i2c d)
   \<and> deviceAddress (i2c (PCA9685_setPWM h d ch on_value off_value)) = deviceAddress (i2c d)
   \<and> (uint (SERVO0 h) + 4 * uint ch < 256 \<longrightarrow>
        uint (SERVO0 h + 4 * ch) = uint (SERVO0 h) + 4 * uint ch)
   \<and> sent (i2c (PCA9685_setPWM h d ch 0x0155 0x0FAB)) =
       sent (i2c d) @ [WriteBlock (SERVO0 h + 4 * ch) [0x55, 0x01, 0xAB, 0x0F] 4]"
proof (intro conjI impI)
  show "sent (i2c (PCA9685_setPWM h d ch on_value off_value)) =
     sent (i2c d) @
       [WriteBlock (SERVO0 h + 4 * ch)
          [word_of_nat (unat on_value mod 256), word_of_nat (unat on_value div 256),
           word_of_nat (unat off_value mod 256), word_of_nat (unat off_value div 256)] 4]"
    by (simp add: PCA9685_setPWM_sent encode_bytes)
  show "bus (i2c (PCA9685_setPWM h d ch on_value off_value)) = bus (i2c d)"
    by (simp add: PCA9685_setPWM_sent)
  show "deviceAddress (i2c (PCA9685_setPWM h d ch on_value off_value)) = deviceAddress (i2c d)"
    by (simp add: PCA9685_setPWM_sent)
  show "sent (i2c (PCA9685_setPWM h d ch 0x0155 0x0FAB)) =
       sent (i2c d) @ [WriteBlock (SERVO0 h + 4 * ch) [0x55, 0x01, 0xAB, 0x0F] 4]"
    by (simp add: PCA9685_setPWM_sent encode_def)
next
  assume "uint (SERVO0 h) + 4 * uint ch < 256"
  then show "uint (SERVO0 h + 4 * ch) = uint (SERVO0 h) + 4 * uint ch"
    by (rule register_no_wrap)
qed

theorem PCA9685_setPWM_one_block_witness:
  "uint (SERVO0 datasheet) + 4 * uint (15 :: u8) < 256
   \<and> uint (SERVO0 datasheet + 4 * 15) = 66
   \<and> sent (i2c (PCA9685_setPWM datasheet (fresh 1 0x40) 15 0x0155 0x0FAB)) =
       [WriteBlock 66 [0x55, 0x01, 0xAB, 0x0F] 4]"
proof -
  have fits: "uint (SERVO0 datasheet) + 4 * uint (15 :: u8) < 256"
    by (simp add: datasheet_def)
  from PCA9685_setPWM_one_block [of datasheet "fresh 1 0x40" 15 0 0] fits
  have "uint (SERVO0 datasheet + 4 * 15) = uint (SERVO0 datasheet) + 4 * uint (15 :: u8)"
    by blast
  moreover from PCA9685_setPWM_one_block [of datasheet "fresh 1 0x40" 15 0 0]
  have "sent (i2c (PCA9685_setPWM datasheet (fresh 1 0x40) 15 0x0155 0x0FAB)) =
       sent (i2c (fresh 1 0x40)) @ [WriteBlock (SERVO0 datasheet + 4 * 15) [0x55, 0x01, 0xAB, 0x0F] 4]"
    by blast
  ultimately show ?thesis using fits
    by (simp add: datasheet_def fresh_def I2CDevice_new_def)
qed

text \<open>
  Claim C3 does not hold as stated: the encoding keeps bits 12 to 15. With on = 0x1000
  the on high byte written is 0x10, while on mod 4096 = 0 writes 0x00.
\<close>

theorem PCA9685_setPWM_not_truncated:
  "sent (i2c (PCA9685_setPWM datasheet (fresh 1 0x40) 0 0x1000 0)) =
     [WriteBlock 0x06 [0x00, 0x10, 0x00, 0x00] 4]
   \<and> sent (i2c (PCA9685_setPWM datasheet (fresh 1 0x40) 0 (0x1000 mod 4096) (0 mod 4096))) =
     [WriteBlock 0x06 [0x00, 0x00, 0x00, 0x00] 4]
   \<and> PCA9685_setPWM datasheet (fresh 1 0x40) 0 0x1000 0
     \<noteq> PCA9685_setPWM datasheet (fresh 1 0x40) 0 (0x1000 mod 4096) (0 mod 4096)"
  by (simp add: PCA9685_setPWM_sent encode_def datasheet_def fresh_def I2CDevice_new_def)

text \<open>
  Claim C3, amended. For every channel and every 16-bit on/off value the bytes written
  are the low and the high byte of the whole 16-bit value, so bits 12 to 15 reach the
  chip in the high bytes, neither truncated nor rejected. Two calls on one channel write
  the same bytes only for the same on and off; hence \<open>setPWM(ch, on, off)\<close> writes the
  bytes of \<open>setPWM(ch, on mod 4096, off mod 4096)\<close> exactly when on and off are below
  4096.
\<close>

theorem PCA9685_setPWM_sixteen_bits:
  "sent (i2c (PCA9685_setPWM h d ch on_value off_value)) =
     sent (i2c d) @
       [WriteBlock (SERVO0 h + 4 * ch)
          [word_of_nat (unat on_value mod 256), word_of_nat (unat on_value div 256),
           word_of_nat (unat off_value mod 256), word_of_nat (unat off_value div 256)] 4]
   \<and> ((PCA9685_setPWM h d ch on_value off_value = PCA9685_setPWM h d ch on' off')
        = (on_value = on' \<and> off_value = off'))
   \<and> ((PCA9685_setPWM h d ch on_value off_value =
         PCA9685_setPWM h d ch (on_value mod 4096) (off_value mod 4096))
        = (on_value < 4096 \<and> off_value < 4096))"
proof (intro conjI)
  show "sent (i2c (PCA9685_setPWM h d ch on_value off_value)) =
     sent (i2c d) @
       [WriteBlock (SERVO0 h + 4 * ch)
          [word_of_nat (unat on_value mod 256), word_of_nat (unat on_value div 256),
           word_of_nat (unat off_value mod 256), word_of_nat (unat off_value div 256)] 4]"
    by (simp add: PCA9685_setPWM_sent encode_bytes)
  show "(PCA9685_setPWM h d ch on_value off_value = PCA9685_setPWM h d ch on' off')
        = (on_value = on' \<and> off_value = off')"
    by (rule PCA9685_setPWM_eq_iff)
  have "(PCA9685_setPWM h d ch on_value off_value =
         PCA9685_setPWM h d ch (on_value mod 4096) (off_value mod 4096))
        = (on_value mod 4096 = on_value \<and> off_value mod 4096 = off_value)"
    unfolding PCA9685_setPWM_eq_iff by auto
  then show "(PCA9685_setPWM h d ch on_value off_value =
         PCA9685_setPWM h d ch (on_value mod 4096) (off_value mod 4096))
        = (on_value < 4096 \<and> off_value < 4096)"
    by (simp only: mod_4096_fixed)
qed

section \<open>The aggregator's dispatch\<close>

lemma unat_u8_lt: "unat (m :: u8) < 256"
  using unsigned_less [of m, where ?'a = nat] by simp

lemma uint_driverIndex: "uint (driverIndex m) = uint m div 16"
proof -
  have "0 \<le> uint m div 16" by (simp add: pos_imp_zdiv_nonneg_iff)
  moreover have "uint m div 16 < 256" using uint_u8_le [of m] by simp
  ultimately show ?thesis unfolding driverIndex_def outputsPerDriver_def
    by (rule uint_word_of_int_u8)
qed

lemma uint_channel: "uint (channel m) = uint m mod 16"
proof -
  have "0 \<le> uint m mod 16" by (rule pos_mod_sign) simp
  moreover have "uint m mod 16 < 256"
  proof -
    have "uint m mod 16 < 16" by simp
    then show ?thesis by linarith
  qed
  ultimately show ?thesis unfolding channel_def outputsPerDriver_def
    by (rule uint_word_of_int_u8)
qed

lemma unat_driverIndex: "unat (driverIndex m) = unat m div 16"
proof -
  have "int (unat (driverIndex m)) = int (unat m div 16)"
    using uint_driverIndex [of m] by (simp only: uint_nat zdiv_int) simp
  then show ?thesis by (simp only: of_nat_eq_iff)
qed

lemma unat_channel: "unat (channel m) = unat m mod 16"
proof -
  have "int (unat (channel m)) = int (unat m mod 16)"
    using uint_channel [of m] by (simp only: uint_nat zmod_int) simp
  then show ?thesis by (simp only: of_nat_eq_iff)
qed

lemma channel_word: "channel m = word_of_nat (unat m mod 16)"
proof -
  have "word_of_nat (unat (channel m)) = channel m" by simp
  then show ?thesis by (simp only: unat_channel)
qed

lemma driverIndex_le_15: "unat (driverIndex m) \<le> 15"
  using unat_u8_lt [of m] by (simp add: unat_driverIndex)

lemma in_range_iff:
  "uint (driverIndex m) < uint (numDrivers s) \<longleftrightarrow> unat m div 16 < unat (numDrivers s)"
  by (simp only: unat_driverIndex [symmetric] word_less_def [symmetric] word_less_nat_alt)

lemma MultiPCA9685_setPWM_out_of_range:
  "\<not> unat m div 16 < unat (numDrivers s) \<Longrightarrow> MultiPCA9685_setPWM h s m on off = Inr s"
  by (simp add: MultiPCA9685_setPWM_def Let_def in_range_iff)

lemma MultiPCA9685_setPWM_in_range:
  assumes "consistent s" and "unat m div 16 < unat (numDrivers s)"
  shows "MultiPCA9685_setPWM h s m on off =
     Inr (s\<lparr>pwmDrivers := (pwmDrivers s)[unat m div 16 :=
                PCA9685_setPWM h (pwmDrivers s ! (unat m div 16)) (channel m) on off],
            cout := cout s @
              (if PCA9685_DEBUG s
               then [SettingPWM on off (uint m) (uint (driverIndex m)) (uint (channel m))
                       (uint (snd (busAddressPairs s ! (unat m div 16))))
                       (fst (busAddressPairs s ! (unat m div 16)))]
               else [])\<rparr>)"
proof -
  have "unat m div 16 < length (pwmDrivers s)" "unat m div 16 < length (busAddressPairs s)"
    using assms by (simp_all add: consistent_def)
  then show ?thesis
    using assms(2) by (simp add: MultiPCA9685_setPWM_def Let_def in_range_iff unat_driverIndex)
qed

subsection \<open>Construction establishes the invariant, every call keeps the configuration\<close>

lemma setFreq_binding: "binding (setFreq h d freq) = binding d"
  by (simp add: setFreq_sent binding_def)

lemma PCA9685_new_binding: "binding (PCA9685_new h b a freq) = (b, a)"
proof -
  have "binding (PCA9685_new h b a freq) = binding (reset h \<lparr>i2c = I2CDevice_new b a\<rparr>)"
    unfolding PCA9685_new_def by (rule setFreq_binding)
  then show ?thesis
    by (simp add: binding_def reset_def writeRegister_def I2CDevice_new_def)
qed

lemma PCA9685_setPWM_binding: "binding (PCA9685_setPWM h d ch on off) = binding d"
  by (simp add: PCA9685_setPWM_sent binding_def)

lemma emplace_all_bindings:
  "map binding (emplace_all h ps freq acc) = map binding acc @ map pair_binding ps"
proof (induction ps arbitrary: acc)
  case Nil
  then show ?case by simp
next
  case (Cons p ps)
  have "binding (PCA9685_new h (word_of_int (fst p)) (snd p) freq) = pair_binding p"
    by (simp add: PCA9685_new_binding pair_binding_def)
  then show ?case by (simp add: Cons.IH)
qed

lemma unat_of_nat_u8_le: "unat (of_nat n :: u8) \<le> n"
  by (simp add: unat_of_nat)

lemma MultiPCA9685_new_fields:
  "busAddressPairs (MultiPCA9685_new h dbg out pairs frequency) = pairs"
  "numDrivers (MultiPCA9685_new h dbg out pairs frequency) = of_nat (length pairs)"
  "DevFrequency (MultiPCA9685_new h dbg out pairs frequency) = frequency"
  "map binding (pwmDrivers (MultiPCA9685_new h dbg out pairs frequency)) = map pair_binding pairs"
  "PCA9685_DEBUG (MultiPCA9685_new h dbg out pairs frequency) = dbg"
  "cout (MultiPCA9685_new h dbg out pairs frequency) = out"
  by (simp_all add: MultiPCA9685_new_def emplace_all_bindings)

lemma MultiPCA9685_new_consistent:
  "consistent (MultiPCA9685_new h dbg out pairs frequency)"
proof -
  let ?s = "MultiPCA9685_new h dbg out pairs frequency"
  have "length (map binding (pwmDrivers ?s)) = length (map pair_binding pairs)"
    by (simp only: MultiPCA9685_new_fields(4))
  then have len: "length (pwmDrivers ?s) = length pairs" by simp
  then show ?thesis
    unfolding consistent_def
    by (simp add: MultiPCA9685_new_fields(1,2) unat_of_nat_u8_le)
qed

lemma same_configuration_refl: "same_configuration s s"
  by (simp add: same_configuration_def)

lemma same_configuration_trans:
  "same_configuration s s' \<Longrightarrow> same_configuration s' s'' \<Longrightarrow> same_configuration s s''"
  by (simp add: same_configuration_def)

lemma same_configuration_consistent:
  assumes "same_configuration s s'" and "consistent s"
  shows "consistent s'"
proof -
  have "length (map binding (pwmDrivers s')) = length (map binding (pwmDrivers s))"
    using assms(1) by (simp only: same_configuration_def)
  then have "length (pwmDrivers s') = length (pwmDrivers s)" by simp
  then show ?thesis using assms by (simp add: same_configuration_def consistent_def)
qed

lemma map_binding_update:
  "k < length ds \<Longrightarrow> binding d' = binding (ds ! k) \<Longrightarrow> map binding (ds[k := d']) = map binding ds"
  by (simp add: map_update list_update_same_conv)

lemma MultiPCA9685_setPWM_same:
  assumes "consistent s"
  shows "\<exists>s'. MultiPCA9685_setPWM h s m on off = Inr s' \<and> same_configuration s s'"
proof (cases "unat m div 16 < unat (numDrivers s)")
  case True
  then have k: "unat m div 16 < length (pwmDrivers s)" using assms by (simp add: consistent_def)
  show ?thesis
    unfolding MultiPCA9685_setPWM_in_range [OF assms True]
    by (simp add: same_configuration_def map_binding_update [OF k] PCA9685_setPWM_binding)
next
  case False
  then show ?thesis
    by (simp add: MultiPCA9685_setPWM_out_of_range same_configuration_refl)
qed

lemma getSetup_same: "same_configuration s (getSetup s)"
  by (simp add: same_configuration_def getSetup_def)

lemma toggleDebug_same: "same_configuration s (toggleDebug s)"
  by (simp add: same_configuration_def toggleDebug_def Let_def)

lemma perform_same:
  assumes "consistent s"
  shows "\<exists>s'. perform h s c = Inr s' \<and> same_configuration s s'"
proof (cases c)
  case (SetPWM m on off)
  then show ?thesis using MultiPCA9685_setPWM_same [OF assms] by simp
next
  case (SetPWM2 m v)
  then show ?thesis using MultiPCA9685_setPWM_same [OF assms]
    by (simp add: MultiPCA9685_setPWM2_def)
next
  case GetSetup
  then show ?thesis by (simp add: getSetup_same)
next
  case ToggleDebug
  then show ?thesis by (simp add: toggleDebug_same)
qed

lemma run_same:
  "consistent s \<Longrightarrow> \<exists>s'. run h s calls = Inr s' \<and> same_configuration s s'"
proof (induction calls arbitrary: s)
  case Nil
  then show ?case by (simp add: same_configuration_refl)
next
  case (Cons c calls)
  from perform_same [OF Cons.prems] obtain s1
    where s1: "perform h s c = Inr s1" and c1: "same_configuration s s1" by blast
  have "consistent s1" using c1 Cons.prems by (rule same_configuration_consistent)
  from Cons.IH [OF this] obtain s2
    where s2: "run h s1 calls = Inr s2" and c2: "same_configuration s1 s2" by blast
  have "run h s (c # calls) = Inr s2" using s1 s2 by simp
  moreover have "same_configuration s s2" using c1 c2 by (rule same_configuration_trans)
  ultimately show ?case by blast
qed

lemma MultiPCA9685_setPWM_effect:
  assumes "consistent s" and "driverIndex m < numDrivers s"
  shows "\<exists>s'. MultiPCA9685_setPWM h s m on off = Inr s'
           \<and> binding (pwmDrivers s' ! (unat m div 16)) = binding (pwmDrivers s ! (unat m div 16))
           \<and> sent (i2c (pwmDrivers s' ! (unat m div 16))) =
               sent (i2c (pwmDrivers s ! (unat m div 16))) @
                 [WriteBlock (SERVO0 h + 4 * channel m) (encode on off) 4]
           \<and> (\<forall>k. k \<noteq> unat m div 16 \<longrightarrow> pwmDrivers s' ! k = pwmDrivers s ! k)"
proof -
  have r: "unat m div 16 < unat (numDrivers s)"
    using assms(2) by (simp add: word_less_nat_alt unat_driverIndex)
  then have k: "unat m div 16 < length (pwmDrivers s)"
    using assms(1) by (simp add: consistent_def)
  show ?thesis
    unfolding MultiPCA9685_setPWM_in_range [OF assms(1) r]
    using k by (simp add: PCA9685_setPWM_binding) (simp add: PCA9685_setPWM_sent)
qed

lemma MultiPCA9685_setPWM_drop:
  assumes "MultiPCA9685_setPWM h s m on off = Inr s'"
  shows "drop 16 (pwmDrivers s') = drop 16 (pwmDrivers s)"
proof -
  have "unat (driverIndex m) < 16" using driverIndex_le_15 [of m] by simp
  then show ?thesis
    using assms by (auto simp: MultiPCA9685_setPWM_def Let_def drop_update_cancel split: if_splits)
qed

lemma perform_drop:
  assumes "perform h s c = Inr s'"
  shows "drop 16 (pwmDrivers s') = drop 16 (pwmDrivers s)"
proof (cases c)
  case (SetPWM m on off)
  with assms show ?thesis by (simp add: MultiPCA9685_setPWM_drop)
next
  case (SetPWM2 m v)
  with assms show ?thesis by (simp add: MultiPCA9685_setPWM2_def MultiPCA9685_setPWM_drop)
next
  case GetSetup
  with assms show ?thesis by (auto simp: getSetup_def)
next
  case ToggleDebug
  with assms show ?thesis by (auto simp: toggleDebug_def Let_def)
qed

lemma run_drop:
  "run h s calls = Inr s' \<Longrightarrow> drop 16 (pwmDrivers s') = drop 16 (pwmDrivers s)"
proof (induction calls arbitrary: s)
  case Nil
  then show ?case by simp
next
  case (Cons c calls)
  show ?case
  proof (cases "perform h s c")
    case (Inl e)
    with Cons.prems show ?thesis by simp
  next
    case (Inr s1)
    with Cons.prems have "run h s1 calls = Inr s'" by simp
    then have "drop 16 (pwmDrivers s') = drop 16 (pwmDrivers s1)" by (rule Cons.IH)
    also have "\<dots> = drop 16 (pwmDrivers s)" using Inr by (rule perform_drop)
    finally show ?thesis .
  qed
qed

subsection \<open>The example aggregators\<close>

lemma PCA9685_new_50: "PCA9685_new datasheet b a 50 = initialised b a"
  by (simp add: PCA9685_new_def setFreq_sent prescale_val_50 reset_def writeRegister_def
      I2CDevice_new_def datasheet_def initialised_def)

lemma two_boards_new:
  "MultiPCA9685_new datasheet False [] [(1, 0x40), (3, 0x41)] 50 = two_boards"
  by (simp add: MultiPCA9685_new_def PCA9685_new_50 two_boards_def)

lemma emplace_all_50:
  "emplace_all datasheet ps 50 acc = acc @ map (\<lambda>p. initialised (word_of_int (fst p)) (snd p)) ps"
  by (induction ps arbitrary: acc) (simp_all add: PCA9685_new_50)

lemma seventeen_boards_new:
  "MultiPCA9685_new datasheet False [] seventeen_pairs 50 = seventeen_boards"
  unfolding MultiPCA9685_new_def emplace_all_50
  by (simp add: seventeen_boards_def seventeen_pairs_def comp_def)

lemma two_boards_consistent: "consistent two_boards"
  using MultiPCA9685_new_consistent [of datasheet False "[]" "[(1, 0x40), (3, 0x41)]" 50]
  by (simp only: two_boards_new)

lemma seventeen_boards_consistent: "consistent seventeen_boards"
  using MultiPCA9685_new_consistent [of datasheet False "[]" seventeen_pairs 50]
  by (simp only: seventeen_boards_new)

lemma run_example: "run datasheet two_boards example_calls = Inr two_boards_later"
  by (simp add: example_calls_def two_boards_def two_boards_later_def
      MultiPCA9685_setPWM2_def MultiPCA9685_setPWM_def driverIndex_def channel_def
      outputsPerDriver_def Let_def toggleDebug_def getSetup_def PCA9685_setPWM_sent
      encode_def datasheet_def initialised_def)

lemma seventeen_setPWM:
  "MultiPCA9685_setPWM datasheet seventeen_boards 255 0 100 = Inr seventeen_later"
proof -
  have "unat (255 :: u8) div 16 < unat (numDrivers seventeen_boards)"
    by (simp add: seventeen_boards_def)
  from MultiPCA9685_setPWM_in_range [OF seventeen_boards_consistent this, of datasheet 0 100]
  show ?thesis
    by (simp add: seventeen_later_def channel_def outputsPerDriver_def)
       (simp add: seventeen_boards_def)
qed

lemma seventeen_last: "drop 16 (pwmDrivers seventeen_boards) = [initialised 1 0x50]"
  by (simp add: seventeen_boards_def)

subsection \<open>The claims about the aggregator\<close>

text \<open>
  Claim C2. For every flat motor index the resolved driver index is the index divided
  by 16 and the resolved channel is the index modulo 16, with no wrap-around in the
  bytes that hold them; the index 17 resolves to driver 1, channel 1. When the driver
  index is below \<open>numDrivers\<close>, the call is forwarded to the \<open>setPWM\<close> of the driver at
  that position with that channel (after the debug line, when the flag is set), and
  nothing else changes.
\<close>

theorem MultiPCA9685_setPWM_resolves:
  "unat (driverIndex m) = unat m div 16
   \<and> unat (channel m) = unat m mod 16
   \<and> driverIndex 17 = 1 \<and> channel 17 = 1
   \<and> (consistent s \<and> driverIndex m < numDrivers s \<longrightarrow>
        MultiPCA9685_setPWM h s m on off =
          Inr (s\<lparr>pwmDrivers := (pwmDrivers s)[unat m div 16 :=
                    PCA9685_setPWM h (pwmDrivers s ! (unat m div 16))
                      (word_of_nat (unat m mod 16)) on off],
                 cout := cout s @
                   (if PCA9685_DEBUG s
                    then [SettingPWM on off (uint m) (uint m div 16) (uint m mod 16)
                            (uint (snd (busAddressPairs s ! (unat m div 16))))
                            (fst (busAddressPairs s ! (unat m div 16)))]
                    else [])\<rparr>))"
proof (intro conjI impI)
  show "unat (driverIndex m) = unat m div 16" by (rule unat_driverIndex)
  show "unat (channel m) = unat m mod 16" by (rule unat_channel)
  show "driverIndex 17 = 1" by (simp add: driverIndex_def outputsPerDriver_def)
  show "channel 17 = 1" by (simp add: channel_def outputsPerDriver_def)
next
  assume a: "consistent s \<and> driverIndex m < numDrivers s"
  then have "unat m div 16 < unat (numDrivers s)"
    by (simp add: word_less_nat_alt unat_driverIndex)
  with a show "MultiPCA9685_setPWM h s m on off =
          Inr (s\<lparr>pwmDrivers := (pwmDrivers s)[unat m div 16 :=
                    PCA9685_setPWM h (pwmDrivers s ! (unat m div 16))
                      (word_of_nat (unat m mod 16)) on off],
                 cout := cout s @
                   (if PCA9685_DEBUG s
                    then [SettingPWM on off (uint m) (uint m div 16) (uint m mod 16)
                            (uint (snd (busAddressPairs s ! (unat m div 16))))
                            (fst (busAddressPairs s ! (unat m div 16)))]
                    else [])\<rparr>)"
    by (simp only: MultiPCA9685_setPWM_in_range uint_driverIndex uint_channel)
       (simp only: channel_word)
qed

theorem MultiPCA9685_setPWM_resolves_witness:
  "consistent two_boards \<and> driverIndex 17 < numDrivers two_boards
   \<and> MultiPCA9685_setPWM datasheet two_boards 17 0 110 =
       Inr (two_boards\<lparr>pwmDrivers :=
              [initialised 1 0x40, PCA9685_setPWM datasheet (initialised 3 0x41) 1 0 110]\<rparr>)
   \<and> sent (i2c (PCA9685_setPWM datasheet (initialised 3 0x41) 1 0 110)) =
       sent (i2c (initialised 3 0x41)) @ [WriteBlock 0x0A [0x00, 0x00, 0x6E, 0x00] 4]"
proof -
  have c: "consistent two_boards" by (rule two_boards_consistent)
  have r: "driverIndex 17 < numDrivers two_boards"
    by (simp add: driverIndex_def outputsPerDriver_def two_boards_def)
  from MultiPCA9685_setPWM_resolves [of 17 two_boards datasheet 0 110] c r
  have "MultiPCA9685_setPWM datasheet two_boards 17 0 110 =
          Inr (two_boards\<lparr>pwmDrivers := (pwmDrivers two_boards)[unat (17 :: u8) div 16 :=
                    PCA9685_setPWM datasheet (pwmDrivers two_boards ! (unat (17 :: u8) div 16))
                      (word_of_nat (unat (17 :: u8) mod 16)) 0 110],
                 cout := cout two_boards @
                   (if PCA9685_DEBUG two_boards
                    then [SettingPWM 0 110 (uint (17 :: u8)) (uint (17 :: u8) div 16) (uint (17 :: u8) mod 16)
                            (uint (snd (busAddressPairs two_boards ! (unat (17 :: u8) div 16))))
                            (fst (busAddressPairs two_boards ! (unat (17 :: u8) div 16)))]
                    else [])\<rparr>)"
    by blast
  then have "MultiPCA9685_setPWM datasheet two_boards 17 0 110 =
       Inr (two_boards\<lparr>pwmDrivers :=
              [initialised 1 0x40, PCA9685_setPWM datasheet (initialised 3 0x41) 1 0 110]\<rparr>)"
    by (simp add: two_boards_def)
  moreover have "sent (i2c (PCA9685_setPWM datasheet (initialised 3 0x41) 1 0 110)) =
       sent (i2c (initialised 3 0x41)) @ [WriteBlock 0x0A [0x00, 0x00, 0x6E, 0x00] 4]"
    by (simp add: PCA9685_setPWM_sent encode_def datasheet_def)
  ultimately show ?thesis using c r by blast
qed

text \<open>
  Claim C4. When the resolved driver index is not below \<open>numDrivers\<close>, both overloads of
  \<open>MultiPCA9685::setPWM\<close> return the state they were given: no driver's device receives
  a write, nothing is printed (debug flag set or not), no fault occurs.
\<close>

theorem MultiPCA9685_setPWM_ignored:
  "numDrivers s \<le> driverIndex m \<longrightarrow>
     MultiPCA9685_setPWM h s m on off = Inr s
     \<and> MultiPCA9685_setPWM2 h s m val = Inr s"
proof
  assume "numDrivers s \<le> driverIndex m"
  then have "\<not> unat m div 16 < unat (numDrivers s)"
    by (simp add: word_le_nat_alt unat_driverIndex)
  then show "MultiPCA9685_setPWM h s m on off = Inr s
     \<and> MultiPCA9685_setPWM2 h s m val = Inr s"
    by (simp add: MultiPCA9685_setPWM2_def MultiPCA9685_setPWM_out_of_range)
qed

theorem MultiPCA9685_setPWM_ignored_witness:
  "numDrivers two_boards \<le> driverIndex 32
   \<and> MultiPCA9685_setPWM datasheet two_boards 32 0 2000 = Inr two_boards
   \<and> MultiPCA9685_setPWM2 datasheet two_boards 32 2000 = Inr two_boards
   \<and> MultiPCA9685_setPWM datasheet (toggleDebug two_boards) 32 0 2000 = Inr (toggleDebug two_boards)"
proof -
  have r: "numDrivers two_boards \<le> driverIndex 32"
    by (simp add: driverIndex_def outputsPerDriver_def two_boards_def)
  have r': "numDrivers (toggleDebug two_boards) \<le> driverIndex 32"
    by (simp add: driverIndex_def outputsPerDriver_def two_boards_def toggleDebug_def Let_def)
  show ?thesis
    using r r' MultiPCA9685_setPWM_ignored [of two_boards 32 datasheet 0 2000 2000]
      MultiPCA9685_setPWM_ignored [of "toggleDebug two_boards" 32 datasheet 0 2000 2000]
    by blast
qed

text \<open>
  Claim C7. The two-argument overloads are the three-argument ones with on = 0, for the
  single driver and for the aggregator; the single driver then writes the bytes
  0, 0, value low, value high.
\<close>

theorem setPWM_overloads:
  "PCA9685_setPWM2 h d servo val = PCA9685_setPWM h d servo 0 val
   \<and> MultiPCA9685_setPWM2 h s motorIndex val = MultiPCA9685_setPWM h s motorIndex 0 val
   \<and> sent (i2c (PCA9685_setPWM2 h d servo val)) =
       sent (i2c d) @ [WriteBlock (SERVO0 h + 4 * servo)
         [0, 0, word_of_nat (unat val mod 256), word_of_nat (unat val div 256)] 4]"
  by (simp add: PCA9685_setPWM2_def MultiPCA9685_setPWM2_def PCA9685_setPWM_sent encode_bytes)

text \<open>
  Claim C8. After construction from an ordered list of pairs, at any frequency, every
  sequence of calls of \<open>setPWM\<close> (both overloads), \<open>getSetup\<close> and \<open>toggleDebug\<close> runs
  without fault and leaves \<open>busAddressPairs\<close>, \<open>numDrivers\<close> and \<open>DevFrequency\<close> as
  constructed and \<open>pwmDrivers\<close> of the same length with every driver bound to the device
  of the pair at its position. So at any later time a flat index whose driver index is
  in range reaches the driver of the pair at position index / 16: that driver's device
  receives the block, and no other driver changes.
\<close>

theorem configuration_fixed:
  "\<exists>s. run h (MultiPCA9685_new h dbg out pairs frequency) calls = Inr s
     \<and> busAddressPairs s = pairs
     \<and> numDrivers s = of_nat (length pairs)
     \<and> DevFrequency s = frequency
     \<and> length (pwmDrivers s) = length pairs
     \<and> map binding (pwmDrivers s) = map pair_binding pairs
     \<and> (\<forall>m on off. driverIndex m < numDrivers s \<longrightarrow>
          (\<exists>s'. MultiPCA9685_setPWM h s m on off = Inr s'
             \<and> binding (pwmDrivers s' ! (unat m div 16)) = pair_binding (pairs ! (unat m div 16))
             \<and> sent (i2c (pwmDrivers s' ! (unat m div 16))) =
                 sent (i2c (pwmDrivers s ! (unat m div 16))) @
                   [WriteBlock (SERVO0 h + 4 * channel m) (encode on off) 4]
             \<and> (\<forall>k. k \<noteq> unat m div 16 \<longrightarrow> pwmDrivers s' ! k = pwmDrivers s ! k)))"
proof -
  define s0 where "s0 = MultiPCA9685_new h dbg out pairs frequency"
  have c0: "consistent s0" unfolding s0_def by (rule MultiPCA9685_new_consistent)
  from run_same [OF c0] obtain s
    where run: "run h s0 calls = Inr s" and same: "same_configuration s0 s" by blast
  have c: "consistent s" using same c0 by (rule same_configuration_consistent)
  have f1: "busAddressPairs s = pairs"
    using same MultiPCA9685_new_fields(1) [of h dbg out pairs frequency] by (simp add: same_configuration_def s0_def)
  have f2: "numDrivers s = of_nat (length pairs)"
    using same MultiPCA9685_new_fields(2) [of h dbg out pairs frequency] by (simp add: same_configuration_def s0_def)
  have f3: "DevFrequency s = frequency"
    using same MultiPCA9685_new_fields(3) [of h dbg out pairs frequency] by (simp add: same_configuration_def s0_def)
  have f4: "map binding (pwmDrivers s) = map pair_binding pairs"
    using same MultiPCA9685_new_fields(4) [of h dbg out pairs frequency] by (simp add: same_configuration_def s0_def)
  then have "length (map binding (pwmDrivers s)) = length (map pair_binding pairs)"
    by (simp only:)
  then have f5: "length (pwmDrivers s) = length pairs" by simp
  have f6: "\<exists>s'. MultiPCA9685_setPWM h s m on off = Inr s'
             \<and> binding (pwmDrivers s' ! (unat m div 16)) = pair_binding (pairs ! (unat m div 16))
             \<and> sent (i2c (pwmDrivers s' ! (unat m div 16))) =
                 sent (i2c (pwmDrivers s ! (unat m div 16))) @
                   [WriteBlock (SERVO0 h + 4 * channel m) (encode on off) 4]
             \<and> (\<forall>k. k \<noteq> unat m div 16 \<longrightarrow> pwmDrivers s' ! k = pwmDrivers s ! k)"
    if r: "driverIndex m < numDrivers s" for m on off
  proof -
    have "unat m div 16 < unat (numDrivers s)"
      using r by (simp add: word_less_nat_alt unat_driverIndex)
    then have k: "unat m div 16 < length (pwmDrivers s)" using c by (simp add: consistent_def)
    then have "map binding (pwmDrivers s) ! (unat m div 16) = binding (pwmDrivers s ! (unat m div 16))"
      by (rule nth_map)
    moreover have "map pair_binding pairs ! (unat m div 16) = pair_binding (pairs ! (unat m div 16))"
      using k f5 by simp
    ultimately have "binding (pwmDrivers s ! (unat m div 16)) = pair_binding (pairs ! (unat m div 16))"
      using f4 by simp
    with MultiPCA9685_setPWM_effect [OF c r, of h on off] show ?thesis by auto
  qed
  from run f1 f2 f3 f4 f5 f6 show ?thesis unfolding s0_def by blast
qed

theorem configuration_fixed_witness:
  "MultiPCA9685_new datasheet False [] [(1, 0x40), (3, 0x41)] 50 = two_boards
   \<and> run datasheet two_boards example_calls = Inr two_boards_later
   \<and> busAddressPairs two_boards_later = [(1, 0x40), (3, 0x41)]
   \<and> numDrivers two_boards_later = 2
   \<and> DevFrequency two_boards_later = 50
   \<and> map binding (pwmDrivers two_boards_later) = [(1, 0x40), (3, 0x41)]
   \<and> driverIndex 16 < numDrivers two_boards_later
   \<and> binding (pwmDrivers two_boards_later ! (unat (16 :: u8) div 16)) = (3, 0x41)"
proof -
  have new: "MultiPCA9685_new datasheet False [] [(1, 0x40), (3, 0x41)] 50 = two_boards"
    by (rule two_boards_new)
  from configuration_fixed [of datasheet False "[]" "[(1, 0x40), (3, 0x41)]" 50 example_calls]
  obtain s where run: "run datasheet two_boards example_calls = Inr s"
    and f: "busAddressPairs s = [(1, 0x40), (3, 0x41)]"
      "numDrivers s = of_nat (length [(1 :: int, 0x40 :: u8), (3, 0x41)])"
      "DevFrequency s = 50"
      "map binding (pwmDrivers s) = map pair_binding [(1, 0x40), (3, 0x41)]"
    and g: "\<forall>m on off. driverIndex m < numDrivers s \<longrightarrow>
          (\<exists>s'. MultiPCA9685_setPWM datasheet s m on off = Inr s'
             \<and> binding (pwmDrivers s' ! (unat m div 16)) = pair_binding ([(1, 0x40), (3, 0x41)] ! (unat m div 16))
             \<and> sent (i2c (pwmDrivers s' ! (unat m div 16))) =
                 sent (i2c (pwmDrivers s ! (unat m div 16))) @
                   [WriteBlock (SERVO0 datasheet + 4 * channel m) (encode on off) 4]
             \<and> (\<forall>k. k \<noteq> unat m div 16 \<longrightarrow> pwmDrivers s' ! k = pwmDrivers s ! k))"
    unfolding new by blast
  have s: "s = two_boards_later" using run by (simp add: run_example)
  have r: "driverIndex 16 < numDrivers two_boards_later"
    by (simp add: driverIndex_def outputsPerDriver_def two_boards_later_def)
  have b: "binding (pwmDrivers two_boards_later ! (unat (16 :: u8) div 16)) = (3, 0x41)"
    by (simp add: two_boards_later_def binding_def)
  from f s have "busAddressPairs two_boards_later = [(1, 0x40), (3, 0x41)]"
    "numDrivers two_boards_later = 2" "DevFrequency two_boards_later = 50"
    "map binding (pwmDrivers two_boards_later) = [(1, 0x40), (3, 0x41)]"
    by (simp_all add: pair_binding_def)
  with new run s r b show ?thesis by simp
qed

text \<open>
  Claim C9. The flat motor index is a byte, so it is at most 255 and the resolved driver
  index at most 15. Hence the drivers at position 16 and above are the same, with the
  same calls received, after any call of either \<open>setPWM\<close> overload and after any
  sequence of calls of the public interface: they never receive a \<open>setPWM\<close>.
\<close>

theorem high_drivers_unreachable:
  "unat m \<le> 255 \<and> unat (driverIndex m) \<le> 15
   \<and> (\<forall>s'. MultiPCA9685_setPWM h s m on off = Inr s' \<longrightarrow>
         drop 16 (pwmDrivers s') = drop 16 (pwmDrivers s))
   \<and> (\<forall>s'. MultiPCA9685_setPWM2 h s m val = Inr s' \<longrightarrow>
         drop 16 (pwmDrivers s') = drop 16 (pwmDrivers s))
   \<and> (\<forall>s'. run h s calls = Inr s' \<longrightarrow>
         drop 16 (pwmDrivers s') = drop 16 (pwmDrivers s))"
proof (intro conjI allI impI)
  show "unat m \<le> 255" using unat_u8_lt [of m] by simp
  show "unat (driverIndex m) \<le> 15" by (rule driverIndex_le_15)
next
  fix s' assume "MultiPCA9685_setPWM h s m on off = Inr s'"
  then show "drop 16 (pwmDrivers s') = drop 16 (pwmDrivers s)" by (rule MultiPCA9685_setPWM_drop)
next
  fix s' assume "MultiPCA9685_setPWM2 h s m val = Inr s'"
  then show "drop 16 (pwmDrivers s') = drop 16 (pwmDrivers s)"
    unfolding MultiPCA9685_setPWM2_def by (rule MultiPCA9685_setPWM_drop)
next
  fix s' assume "run h s calls = Inr s'"
  then show "drop 16 (pwmDrivers s') = drop 16 (pwmDrivers s)" by (rule run_drop)
qed

theorem high_drivers_unreachable_witness:
  "length (pwmDrivers seventeen_boards) = 17
   \<and> drop 16 (pwmDrivers seventeen_boards) = [initialised 1 0x50]
   \<and> MultiPCA9685_setPWM datasheet seventeen_boards 255 0 100 = Inr seventeen_later
   \<and> MultiPCA9685_setPWM2 datasheet seventeen_boards 255 100 = Inr seventeen_later
   \<and> run datasheet seventeen_boards [SetPWM 255 0 100] = Inr seventeen_later
   \<and> drop 16 (pwmDrivers seventeen_later) = [initialised 1 0x50]"
proof -
  have a: "MultiPCA9685_setPWM datasheet seventeen_boards 255 0 100 = Inr seventeen_later"
    by (rule seventeen_setPWM)
  then have b: "MultiPCA9685_setPWM2 datasheet seventeen_boards 255 100 = Inr seventeen_later"
    by (simp add: MultiPCA9685_setPWM2_def)
  from a have c: "run datasheet seventeen_boards [SetPWM 255 0 100] = Inr seventeen_later"
    by simp
  from high_drivers_unreachable [of 255 datasheet seventeen_boards 0 100 100 "[SetPWM 255 0 100]"] a b c
  have "drop 16 (pwmDrivers seventeen_later) = drop 16 (pwmDrivers seventeen_boards)"
    by blast
  moreover have "length (pwmDrivers seventeen_boards) = 17" by (simp add: seventeen_boards_def)
  ultimately show ?thesis using a b c seventeen_last by simp
qed

end
